theory Spec2Isabelle
  imports Complex_Main
begin

section \<open>Python values and exceptions\<close>

text \<open>
  The exceptions that the modelled part of \<^verbatim>\<open>writerator.py\<close> can raise.
  \<^verbatim>\<open>sys.exit(0)\<close> raises \<^verbatim>\<open>SystemExit\<close> with the exit status as
  argument: nothing in the file catches it, so the process ends.
\<close>

datatype py_exc =
    SystemExit int
  | ValueError
  | IndexError
  | UnboundLocalError
  | ZeroDivisionError
  | DivisionGuardError
  | UnsatisfiablePatternError

section \<open>Strings: \<^verbatim>\<open>str.split\<close> and \<^verbatim>\<open>str.join\<close> for a one-character separator\<close>

text \<open>
  \<^verbatim>\<open>s.split(sep)\<close> cuts \<open>s\<close> at every occurrence of the separator; the pieces
  may be empty and there is always at least one (\<^verbatim>\<open>"".split(".") == [""]\<close>).
\<close>

fun split_sep :: "char \<Rightarrow> string \<Rightarrow> string list" where
  "split_sep c [] = [[]]"
| "split_sep c (x # xs) =
     (if x = c then [] # split_sep c xs
      else (case split_sep c xs of
              [] \<Rightarrow> [[x]]
            | p # ps \<Rightarrow> (x # p) # ps))"

fun join_sep :: "char \<Rightarrow> string list \<Rightarrow> string" where
  "join_sep c [] = []"
| "join_sep c [p] = p"
| "join_sep c (p # q # ps) = p @ c # join_sep c (q # ps)"

section \<open>\<^verbatim>\<open>get_filenames\<close>\<close>

text \<open>
  \<^verbatim>\<open>
  def get_filenames(filename_in):
      (name, extension) = filename_in.split(".")
      filename_out = name + "_out" + "." + extension
      return (filename_in, filename_out)
  \<close>
  The destructuring raises \<^verbatim>\<open>ValueError\<close> unless the split has exactly two pieces.
\<close>

definition get_filenames :: "string \<Rightarrow> py_exc + (string \<times> string)" where
  "get_filenames filename_in =
     (case split_sep (CHR ''.'') filename_in of
        [name, extension] \<Rightarrow>
          Inr (filename_in, name @ ''_out'' @ ''.'' @ extension)
      | _ \<Rightarrow> Inl ValueError)"

section \<open>\<^verbatim>\<open>str\<close> of an integer\<close>

text \<open>
  Python's \<^verbatim>\<open>str(count)\<close> for an integer: the decimal digits, most significant
  first, with a leading minus sign for a negative number and no leading zero.
\<close>

definition digit_char :: "nat \<Rightarrow> char" where
  "digit_char d = char_of (48 + d)"

fun str_nat :: "nat \<Rightarrow> string" where
  "str_nat n =
     (if n < 10 then [digit_char n]
      else str_nat (n div 10) @ [digit_char (n mod 10)])"

declare str_nat.simps [simp del]

definition str_int :: "int \<Rightarrow> string" where
  "str_int i = (if i < 0 then CHR ''-'' # str_nat (nat (- i)) else str_nat (nat i))"

section \<open>\<^verbatim>\<open>range(0, n)\<close>\<close>

text \<open>\<^verbatim>\<open>range(0, n)\<close> is empty when \<open>n \<le> 0\<close>.\<close>

definition range0 :: "int \<Rightarrow> nat list" where
  "range0 n = [0..<nat n]"

section \<open>\<^verbatim>\<open>generate_ranked_list_output\<close>\<close>

text \<open>
  \<^verbatim>\<open>
  def generate_ranked_list_output(rank_list, number_to_show):
      def get_last_index_for_output(ranked_elements, number_to_display):
          if len(ranked_elements) < number_to_display:
              return len(ranked_elements)
          else:
              return number_to_display
      last_index = get_last_index_for_output(rank_list, number_to_show)
      output_lines = []
      for i in range(0, last_index):
          (element, count) = rank_list[i]
          if count != 0:
              output_lines.append(str(count) + ": " + str(element) + "\n")
      return output_lines
  \<close>
  A ranked list is a list of pairs of an element (a string, whose \<^verbatim>\<open>str\<close> is
  itself) and an integer count. \<^verbatim>\<open>rank_list[i]\<close> raises \<^verbatim>\<open>IndexError\<close>
  for an index beyond the list; the model keeps that branch.
\<close>

type_synonym ranked = "(string \<times> int) list"

definition get_last_index_for_output :: "ranked \<Rightarrow> int \<Rightarrow> int" where
  "get_last_index_for_output ranked_elements number_to_display =
     (if int (length ranked_elements) < number_to_display
      then int (length ranked_elements)
      else number_to_display)"

definition ranked_line :: "string \<times> int \<Rightarrow> string" where
  "ranked_line entry =
     (case entry of (element, count) \<Rightarrow>
        str_int count @ '': '' @ element @ [CHR 0x0A])"

fun ranked_loop :: "ranked \<Rightarrow> nat list \<Rightarrow> string list \<Rightarrow> py_exc + string list" where
  "ranked_loop rank_list [] output_lines = Inr output_lines"
| "ranked_loop rank_list (i # is) output_lines =
     (if i < length rank_list then
        (case rank_list ! i of (element, count) \<Rightarrow>
           ranked_loop rank_list is
             (if count \<noteq> 0 then output_lines @ [ranked_line (element, count)]
              else output_lines))
      else Inl IndexError)"

definition generate_ranked_list_output :: "ranked \<Rightarrow> int \<Rightarrow> py_exc + string list" where
  "generate_ranked_list_output rank_list number_to_show =
     ranked_loop rank_list
       (range0 (get_last_index_for_output rank_list number_to_show)) []"

section \<open>\<^verbatim>\<open>get_match_output\<close>\<close>

text \<open>
  \<^verbatim>\<open>
  def get_match_output(text, element_type, elements_to_match, number_to_display):
      match_seperator = "~"
      if match_seperator in elements_to_match:
          elements_to_match = elements_to_match.split(match_seperator)
      else:
          elements_to_match = [elements_to_match]
      ranked_elements = text.rank_by_number_of_matches( elements_to_match , element_type )
      return generate_ranked_list_output(ranked_elements, number_to_display)
  \<close>
  \<^verbatim>\<open>rank_by_number_of_matches\<close> is a method of the class \<^verbatim>\<open>Text\<close> of the module
  \<^verbatim>\<open>texttools\<close>, which lies outside \<^verbatim>\<open>writerator.py\<close>: it is a parameter here.
\<close>

definition match_seperator :: char where
  "match_seperator = CHR ''~''"

definition match_patterns :: "string \<Rightarrow> string list" where
  "match_patterns elements_to_match =
     (if match_seperator \<in> set elements_to_match
      then split_sep match_seperator elements_to_match
      else [elements_to_match])"

definition get_match_output ::
  "(string list \<Rightarrow> string \<Rightarrow> ranked) \<Rightarrow> string \<Rightarrow> string \<Rightarrow> int \<Rightarrow> py_exc + string list" where
  "get_match_output rank_by_number_of_matches element_type elements_to_match number_to_display =
     generate_ranked_list_output
       (rank_by_number_of_matches (match_patterns elements_to_match) element_type)
       number_to_display"

section \<open>\<^verbatim>\<open>get_output\<close>: element types and syllable patterns\<close>

text \<open>
  \<^verbatim>\<open>
  def expand_type(code):
      if code == 'c':
          return "characters"
      elif code == 'w':
          return "words"
      elif code == 's':
          return "sentences"
      else:
          logging.error("No such element type cannot expand: " + code)
          sys.exit(0)
  \<close>
  The result is the list of logged error messages and either the exception raised or
  the value returned.
\<close>

definition expand_type :: "string \<Rightarrow> string list \<times> (py_exc + string)" where
  "expand_type code =
     (if code = ''c'' then ([], Inr ''characters'')
      else if code = ''w'' then ([], Inr ''words'')
      else if code = ''s'' then ([], Inr ''sentences'')
      else ([''No such element type cannot expand: '' @ code], Inl (SystemExit 0)))"

text \<open>
  \<^verbatim>\<open>
  def get_repeat_syllable_pattern(number_of_syllables, times_to_repeat):
      repeat_pattern = []
      for i in range(0, times_to_repeat):
          repeat_pattern.append(number_of_syllables)
      return repeat_pattern
  \<close>
\<close>

fun repeat_loop :: "int \<Rightarrow> nat list \<Rightarrow> int list \<Rightarrow> int list" where
  "repeat_loop number_of_syllables [] repeat_pattern = repeat_pattern"
| "repeat_loop number_of_syllables (i # is) repeat_pattern =
     repeat_loop number_of_syllables is (repeat_pattern @ [number_of_syllables])"

definition get_repeat_syllable_pattern :: "int \<Rightarrow> int \<Rightarrow> int list" where
  "get_repeat_syllable_pattern number_of_syllables times_to_repeat =
     repeat_loop number_of_syllables (range0 times_to_repeat) []"

text \<open>
  \<^verbatim>\<open>
  def get_syllable_pattern(name):
      #Shakespeare Sonnet
      if name == 's':
          return get_repeat_syllable_pattern(10, 14)
      #Haiku
      elif name == 'h':
          return [7,5,7]
  \<close>
  For any other name the function falls off its end and returns \<^verbatim>\<open>None\<close>.
\<close>

definition get_syllable_pattern :: "string \<Rightarrow> int list option" where
  "get_syllable_pattern name =
     (if name = ''s'' then Some (get_repeat_syllable_pattern 10 14)
      else if name = ''h'' then Some [7, 5, 7]
      else None)"

text \<open>
  The arguments of the \<^verbatim>\<open>poem\<close> command as \<^verbatim>\<open>argparse\<close> delivers them:
  \<^verbatim>\<open>-l\<close> (one or more integers), \<^verbatim>\<open>-p\<close> (a preset name), \<^verbatim>\<open>-c\<close> (two
  integers) and \<^verbatim>\<open>-s\<close> (an integer); an option that was not given is \<^verbatim>\<open>None\<close>.
  \<^verbatim>\<open>
  elif args.command == commands[0]:
      if args.syllables:
          (syllables_pattern, number_to_generate) = (args.syllables, args.show)
      elif args.preset:
          (syllables_pattern, number_to_generate) = (get_syllable_pattern(args.preset), args.show)
      elif args.shortcut:
          (syllables_pattern, number_to_generate) = (get_repeat_syllable_pattern(args.shortcut[0], args.shortcut[1]), args.show)
      return get_poem_output(text, syllables_pattern, number_to_generate)
  \<close>
  \<open>poem_arguments\<close> is the pair handed to \<^verbatim>\<open>get_poem_output\<close>. A list or a string
  is true when it is not empty; when no branch is taken the variable
  \<^verbatim>\<open>syllables_pattern\<close> is unbound at the call, which raises
  \<^verbatim>\<open>UnboundLocalError\<close>.
\<close>

record poem_args =
  syllables :: "int list option"
  preset :: "string option"
  shortcut :: "(int \<times> int) option"
  show_arg :: int

definition truthy :: "'a list option \<Rightarrow> bool" where
  "truthy v = (case v of None \<Rightarrow> False | Some xs \<Rightarrow> xs \<noteq> [])"

definition poem_arguments :: "poem_args \<Rightarrow> py_exc + (int list option \<times> int)" where
  "poem_arguments args =
     (if truthy (syllables args) then Inr (syllables args, show_arg args)
      else if truthy (preset args) then
        (case preset args of
           Some name \<Rightarrow> Inr (get_syllable_pattern name, show_arg args)
         | None \<Rightarrow> Inl UnboundLocalError)
      else
        (case shortcut args of
           Some (number_of_syllables, times_to_repeat) \<Rightarrow>
             Inr (Some (get_repeat_syllable_pattern number_of_syllables times_to_repeat),
                  show_arg args)
         | None \<Rightarrow> Inl UnboundLocalError))"

text \<open>
  The invariant the data model gives for a syllable pattern: every entry is a strictly
  positive integer.
\<close>

definition positive_pattern :: "int list \<Rightarrow> bool" where
  "positive_pattern pattern = (\<forall>x \<in> set pattern. 0 < x)"

section \<open>The class \<^verbatim>\<open>Text\<close> of the module \<^verbatim>\<open>texttools\<close>\<close>

text \<open>
  \<^verbatim>\<open>writerator.py\<close> imports \<^verbatim>\<open>Text\<close> from \<^verbatim>\<open>texttools\<close> and calls its methods
  \<^verbatim>\<open>rank_by_total_count\<close>, \<^verbatim>\<open>rank_by_number_of_matches\<close>,
  \<^verbatim>\<open>count_occurences\<close>, \<^verbatim>\<open>calculate_Gunning_Fog_Index\<close> and
  \<^verbatim>\<open>generate_poems\<close>. The module itself lies outside \<^verbatim>\<open>writerator.py\<close>; the
  definitions of this section follow the specification's description of it, and each
  says so.
\<close>

text \<open>
  Modelled from the spec: the class \<^verbatim>\<open>Text\<close> (module \<^verbatim>\<open>texttools\<close>). "Text:
  immutable wrapper over raw source content. Attributes: raw string content; derived
  tokenizations for words, characters, sentences (each a sequence of strings, order =
  order of appearance)." The tokenizer is not modelled: a text carries its three
  tokenizations.
\<close>

record Text =
  content :: string
  words :: "string list"
  characters :: "string list"
  sentences :: "string list"

text \<open>
  Modelled from the spec: the tokens of a text for an element type (module
  \<^verbatim>\<open>texttools\<close>), selected by the expanded type name that \<^verbatim>\<open>expand_type\<close>
  returns. Any other name has no tokens.
\<close>

definition elements :: "Text \<Rightarrow> string \<Rightarrow> string list" where
  "elements t element_type =
     (if element_type = ''words'' then words t
      else if element_type = ''characters'' then characters t
      else if element_type = ''sentences'' then sentences t
      else [])"

text \<open>
  Modelled from the spec: the order of first appearance (module \<^verbatim>\<open>texttools\<close>).
  \<open>first_appearances\<close> lists the distinct values of a tokenization, each at the place
  of its first occurrence; \<open>first_index\<close> is the position of the first occurrence of a
  value.
\<close>

primrec first_appearances :: "string list \<Rightarrow> string list" where
  "first_appearances [] = []"
| "first_appearances (x # xs) = x # filter (\<lambda>y. y \<noteq> x) (first_appearances xs)"

definition first_index :: "string list \<Rightarrow> string \<Rightarrow> nat" where
  "first_index xs x = length (takeWhile (\<lambda>y. y \<noteq> x) xs)"

text \<open>
  Modelled from the spec: \<^verbatim>\<open>Text.rank_by_total_count\<close> (module \<^verbatim>\<open>texttools\<close>).
  "rankByTotalCount(elementType): counts occurrences of every distinct element of that
  type, sorted per the ordering invariant: sorted by count descending; ties broken by
  first-appearance order in the source text (stable sort over the original
  tokenization order)." The sort is the library's insertion sort on the negated count.
\<close>

definition rank_by_total_count :: "Text \<Rightarrow> string \<Rightarrow> ranked" where
  "rank_by_total_count t element_type =
     (let tokens = elements t element_type in
      sort_key (\<lambda>(element, count). - count)
        (map (\<lambda>element. (element, int (count_list tokens element)))
           (first_appearances tokens)))"

text \<open>
  Modelled from the spec: \<^verbatim>\<open>Text.count_occurences\<close> (module \<^verbatim>\<open>texttools\<close>).
  "countOccurrences(value, elementType) -> integer: exact-equality count of how many
  tokens of that type equal the given value exactly."
\<close>

definition count_occurences :: "Text \<Rightarrow> string \<Rightarrow> string \<Rightarrow> int" where
  "count_occurences t element element_type =
     int (count_list (elements t element_type) element)"

text \<open>
  Python's true division raises \<^verbatim>\<open>ZeroDivisionError\<close> for a zero divisor. Floating
  point numbers are idealised as reals.
\<close>

definition py_truediv :: "real \<Rightarrow> real \<Rightarrow> py_exc + real" where
  "py_truediv a b = (if b = 0 then Inl ZeroDivisionError else Inr (a / b))"

text \<open>
  Modelled from the spec: \<^verbatim>\<open>Text.calculate_Gunning_Fog_Index\<close> (module
  \<^verbatim>\<open>texttools\<close>). "Computes the Gunning-Fog index:
  0.4 * ((words/sentences) + 100 * (complexWords/words)), where a complex word is one
  with 3 or more syllables (per the Syllable Estimator). Fails (or returns a sentinel)
  when sentence count or word count is zero (division-by-zero guard)." The failure is
  the error kind \<^verbatim>\<open>DivisionGuardError\<close>. The syllable estimator, whose rules the
  specification leaves open, is the parameter \<open>estimate_syllables\<close>.
\<close>

definition calculate_Gunning_Fog_Index :: "(string \<Rightarrow> nat) \<Rightarrow> Text \<Rightarrow> py_exc + real" where
  "calculate_Gunning_Fog_Index estimate_syllables t =
     (let n_words = length (words t);
          n_sentences = length (sentences t);
          n_complex = length (filter (\<lambda>w. 3 \<le> estimate_syllables w) (words t))
      in if n_sentences = 0 \<or> n_words = 0 then Inl DivisionGuardError
         else (case py_truediv (real n_words) (real n_sentences) of
                 Inl e \<Rightarrow> Inl e
               | Inr a \<Rightarrow>
                  (case py_truediv (real n_complex) (real n_words) of
                     Inl e \<Rightarrow> Inl e
                   | Inr b \<Rightarrow> Inr (0.4 * (a + 100 * b)))))"












section \<open>The output functions that call \<^verbatim>\<open>Text\<close>\<close>

text \<open>
  The elements of an output list: strings for most commands; the values below show
  what else the code puts there.
\<close>

datatype py_value = PyStr string | PyInt int | PyFloat real

fun is_str :: "py_value \<Rightarrow> bool" where
  "is_str (PyStr s) = True"
| "is_str (PyInt i) = False"
| "is_str (PyFloat x) = False"

text \<open>
  \<^verbatim>\<open>
  def get_totalcount_output(text, element_type, number_to_display):
      ranked_elements = text.rank_by_total_count(element_type)
      return generate_ranked_list_output(ranked_elements, number_to_display)
  \<close>
\<close>

definition get_totalcount_output :: "Text \<Rightarrow> string \<Rightarrow> int \<Rightarrow> py_exc + string list" where
  "get_totalcount_output t element_type number_to_display =
     generate_ranked_list_output (rank_by_total_count t element_type) number_to_display"

text \<open>
  \<^verbatim>\<open>
  def get_count_output(text, element_type, element_to_count):
      output = []
      output.append(text.count_occurences(element_to_count, element_type))
      return output
  \<close>
  The value appended is what the method returns, an integer; no \<^verbatim>\<open>str\<close> is applied.
\<close>

definition get_count_output :: "Text \<Rightarrow> string \<Rightarrow> string \<Rightarrow> py_value list" where
  "get_count_output t element_type element_to_count =
     [PyInt (count_occurences t element_to_count element_type)]"

text \<open>
  \<^verbatim>\<open>
  def get_Gunning_output(text):
      return [text.calculate_Gunning_Fog_Index()]
  \<close>
  An exception of the method propagates: nothing is caught here or in the callers.
\<close>

definition get_Gunning_output :: "(string \<Rightarrow> nat) \<Rightarrow> Text \<Rightarrow> py_exc + py_value list" where
  "get_Gunning_output estimate_syllables t =
     (case calculate_Gunning_Fog_Index estimate_syllables t of
        Inl e \<Rightarrow> Inl e
      | Inr index \<Rightarrow> Inr [PyFloat index])"




section \<open>A sample text\<close>

text \<open>
  The specification's example text "The cat sat. The cat ran fast.", with its words
  folded to lower case, a syllable estimate and a sequence of draws.
\<close>

definition example_text :: Text where
  "example_text =
     \<lparr>content = ''The cat sat. The cat ran fast.'',
      words = [''the'', ''cat'', ''sat'', ''the'', ''cat'', ''ran'', ''fast''],
      characters = [],
      sentences = [''The cat sat'', ''The cat ran fast'']\<rparr>"



section \<open>Facts about splitting\<close>

lemma split_sep_nonempty: "split_sep c s \<noteq> []"
  by (induction s) (auto split: list.splits)

lemma length_split_sep: "length (split_sep c s) = Suc (count_list s c)"
  by (induction s) (auto split: list.splits simp: split_sep_nonempty)

lemma join_split_sep: "join_sep c (split_sep c s) = s"
proof (induction s)
  case Nil
  show ?case by simp
next
  case (Cons x xs)
  obtain p ps where sp: "split_sep c xs = p # ps"
    using split_sep_nonempty [of c xs] by (cases "split_sep c xs") auto
  show ?case
  proof (cases "x = c")
    case True
    with Cons sp show ?thesis by simp
  next
    case False
    have "join_sep c ((x # p) # ps) = x # join_sep c (p # ps)"
      by (cases ps) auto
    with False Cons sp show ?thesis by simp
  qed
qed

lemma split_sep_no_sep: "p \<in> set (split_sep c s) \<Longrightarrow> c \<notin> set p"
proof (induction s arbitrary: p)
  case Nil
  then show ?case by simp
next
  case (Cons x xs)
  then show ?case
    by (auto split: if_splits list.splits)
qed

lemma split_sep_absent: "c \<notin> set s \<Longrightarrow> split_sep c s = [s]"
  by (induction s) auto

section \<open>Facts about the ranked output\<close>

lemma ranked_loop_eq:
  "\<forall>i \<in> set is. i < length rl \<Longrightarrow>
   ranked_loop rl is out =
     Inr (out @ map ranked_line (filter (\<lambda>(e, c). c \<noteq> 0) (map (\<lambda>i. rl ! i) is)))"
proof (induction "is" arbitrary: out)
  case Nil
  show ?case by simp
next
  case (Cons i "is")
  obtain e c where ec: "rl ! i = (e, c)" by (cases "rl ! i")
  from Cons.prems have 1: "i < length rl" and 2: "\<forall>i \<in> set is. i < length rl" by auto
  show ?case using Cons.IH [OF 2] 1 ec by simp
qed

lemma map_nth_upt_take: "n \<le> length xs \<Longrightarrow> map (\<lambda>i. xs ! i) [0..<n] = take n xs"
  by (simp add: list_eq_iff_nth_eq)

lemma last_index_bound:
  "nat (get_last_index_for_output rl n) = min (length rl) (nat n)"
  by (auto simp: get_last_index_for_output_def)

lemma generate_ranked_list_output_eq:
  "generate_ranked_list_output rl n =
     Inr (map ranked_line (filter (\<lambda>(e, c). c \<noteq> 0) (take (nat n) rl)))"
proof -
  let ?k = "nat (get_last_index_for_output rl n)"
  have k: "?k = min (length rl) (nat n)" by (rule last_index_bound)
  have "\<forall>i \<in> set [0..<?k]. i < length rl" using k by auto
  then have "ranked_loop rl [0..<?k] [] =
      Inr ([] @ map ranked_line (filter (\<lambda>(e, c). c \<noteq> 0) (map (\<lambda>i. rl ! i) [0..<?k])))"
    by (rule ranked_loop_eq)
  moreover have "map (\<lambda>i. rl ! i) [0..<?k] = take ?k rl"
    using k by (intro map_nth_upt_take) simp
  moreover have "take ?k rl = take (nat n) rl" using k by (simp add: min_def)
  ultimately show ?thesis
    by (simp add: generate_ranked_list_output_def range0_def)
qed

lemma of_char_digit_char: "d < 10 \<Longrightarrow> (of_char (digit_char d) :: nat) = 48 + d"
  by (simp add: digit_char_def)

lemma digit_char_not_zero: "0 < d \<Longrightarrow> d < 10 \<Longrightarrow> digit_char d \<noteq> CHR ''0''"
proof
  assume d: "0 < d" "d < 10" and eq: "digit_char d = CHR ''0''"
  have "(of_char (digit_char d) :: nat) = 48 + d" using d by (simp add: of_char_digit_char)
  moreover have "(of_char (CHR ''0'') :: nat) = 48" by simp
  ultimately show False using eq d by simp
qed

lemma str_nat_leading:
  "0 < n \<Longrightarrow> \<exists>d r. str_nat n = digit_char d # r \<and> 0 < d \<and> d < 10"
proof (induction n rule: str_nat.induct)
  case (1 n)
  show ?case
  proof (cases "n < 10")
    case True
    with 1 show ?thesis by (subst str_nat.simps) auto
  next
    case False
    then have "0 < n div 10" by simp
    with 1 False obtain d r where "str_nat (n div 10) = digit_char d # r" "0 < d" "d < 10"
      by blast
    with False show ?thesis by (subst str_nat.simps) auto
  qed
qed

lemma str_int_leading:
  assumes "c \<noteq> 0"
  shows "\<exists>x r. str_int c = x # r \<and> x \<noteq> CHR ''0''"
proof (cases "c < 0")
  case True
  then show ?thesis by (simp add: str_int_def)
next
  case False
  with assms have "0 < nat c" by simp
  then obtain d r where "str_nat (nat c) = digit_char d # r" "0 < d" "d < 10"
    using str_nat_leading by blast
  with False show ?thesis by (auto simp: str_int_def digit_char_not_zero)
qed

lemma str_int_0: "str_int 0 = ''0''"
  by code_simp

lemma ranked_line_nonzero: "c \<noteq> 0 \<Longrightarrow> ranked_line (e, c) \<noteq> ranked_line (e', 0)"
proof -
  assume "c \<noteq> 0"
  then obtain x r where "str_int c = x # r" "x \<noteq> CHR ''0''" using str_int_leading by blast
  then show ?thesis by (simp add: ranked_line_def str_int_0)
qed

section \<open>The ranked list output\<close>

text \<open>
  Claim C2, as amended. The formatted ranking never raises; it is the formatted lines
  of the entries with a non-zero count among the first \<open>max(N, 0)\<close> entries, in order,
  so it has at most \<open>max(N, 0)\<close> lines; when the ranked list has fewer than \<open>N\<close>
  entries every entry with a non-zero count is formatted; and no line of the output
  is the formatting of an entry whose count is 0.
\<close>
theorem generate_ranked_list_output_lines:
  "\<exists>output_lines.
      generate_ranked_list_output rank_list number_to_show = Inr output_lines
    \<and> output_lines =
        map ranked_line (filter (\<lambda>(element, count). count \<noteq> 0)
                           (take (nat number_to_show) rank_list))
    \<and> int (length output_lines) \<le> max 0 number_to_show
    \<and> (int (length rank_list) < number_to_show \<longrightarrow>
         output_lines = map ranked_line (filter (\<lambda>(element, count). count \<noteq> 0) rank_list))
    \<and> (\<forall>line \<in> set output_lines. \<forall>element. line \<noteq> ranked_line (element, 0))"
proof -
  let ?kept = "filter (\<lambda>(element, count). count \<noteq> 0) (take (nat number_to_show) rank_list)"
  have "length ?kept \<le> length (take (nat number_to_show) rank_list)"
    by (rule length_filter_le)
  also have "\<dots> \<le> nat number_to_show" by simp
  finally have len: "int (length (map ranked_line ?kept)) \<le> max 0 number_to_show"
    by simp
  have all: "int (length rank_list) < number_to_show \<Longrightarrow>
      take (nat number_to_show) rank_list = rank_list"
    by simp
  have nz: "\<forall>line \<in> set (map ranked_line ?kept). \<forall>element. line \<noteq> ranked_line (element, 0)"
    by (auto simp: ranked_line_nonzero)
  show ?thesis
    using len all nz by (simp add: generate_ranked_list_output_eq)
qed

theorem generate_ranked_list_output_lines_witness:
  "int (length [(''the'', 2), (''cat'', 0), (''sat'', 1 :: int)]) < 5
   \<and> generate_ranked_list_output [(''the'', 2), (''cat'', 0), (''sat'', 1)] 5 =
       Inr (map ranked_line [(''the'', 2), (''sat'', 1)])
   \<and> ranked_line (''the'', 2) \<in> set (map ranked_line [(''the'', 2), (''sat'', 1)])
   \<and> ranked_line (''the'', 2) \<noteq> ranked_line (''cat'', 0)"
  using generate_ranked_list_output_lines
          [of "[(''the'', 2), (''cat'', 0), (''sat'', 1)]" 5]
  by auto

text \<open>
  Claim C2 as stated (at most \<open>N\<close> lines for every \<open>N\<close>) fails for a negative
  \<open>N\<close>: \<^verbatim>\<open>range(0, -1)\<close> is empty, the output has 0 lines, and 0 is not at most -1.
\<close>
theorem generate_ranked_list_output_negative_counterexample:
  "generate_ranked_list_output [(''the'', 2)] (- 1) = Inr []
   \<and> \<not> int (length ([] :: string list)) \<le> - 1"
  by (simp add: generate_ranked_list_output_eq)

section \<open>Element type codes\<close>

text \<open>
  Claim C3, as amended. The codes \<^verbatim>\<open>w\<close>, \<^verbatim>\<open>c\<close> and \<^verbatim>\<open>s\<close> expand to
  \<^verbatim>\<open>words\<close>, \<^verbatim>\<open>characters\<close> and \<^verbatim>\<open>sentences\<close>; for any other code
  \<^verbatim>\<open>expand_type\<close> logs an error naming the code and ends the process with
  \<^verbatim>\<open>sys.exit(0)\<close>.
\<close>
theorem expand_type_cases:
  "expand_type ''w'' = ([], Inr ''words'')
   \<and> expand_type ''c'' = ([], Inr ''characters'')
   \<and> expand_type ''s'' = ([], Inr ''sentences'')
   \<and> (code \<notin> {''w'', ''c'', ''s''} \<longrightarrow>
        expand_type code =
          ([''No such element type cannot expand: '' @ code], Inl (SystemExit 0)))"
  by (simp add: expand_type_def)

theorem expand_type_cases_witness:
  "''x'' \<notin> {''w'', ''c'', ''s''}
   \<and> expand_type ''x'' = ([''No such element type cannot expand: x''], Inl (SystemExit 0))"
  using expand_type_cases [of "''x''"] by simp

text \<open>
  Claim C3 as stated (an invalid code gives a failure value returned to the caller,
  the process goes on) fails: for the code \<^verbatim>\<open>x\<close> the outcome is \<^verbatim>\<open>SystemExit\<close>
  with status 0.
\<close>
theorem expand_type_exits_counterexample:
  "snd (expand_type ''x'') = Inl (SystemExit 0)"
  by (simp add: expand_type_def)

section \<open>Syllable patterns\<close>

lemma repeat_loop_replicate:
  "repeat_loop s is acc = acc @ replicate (length is) s"
  by (induction "is" arbitrary: acc) (auto simp: replicate_append_same)

lemma get_repeat_syllable_pattern_eq:
  "get_repeat_syllable_pattern s k = replicate (nat k) s"
  by (simp add: get_repeat_syllable_pattern_def range0_def repeat_loop_replicate)



text \<open>
  Claim C7, as amended. The pattern handed to the poem generator is not validated; its
  entries are all strictly positive provided the numbers the user gave are: every
  entry of the explicit list, the syllable number of the repeat shortcut; the presets
  \<^verbatim>\<open>h\<close> and \<^verbatim>\<open>s\<close> are always positive. The number of poems is the
  \<^verbatim>\<open>--show\<close> argument.
\<close>
theorem poem_arguments_positive:
  assumes "poem_arguments args = Inr (syllables_pattern, number_to_generate)"
    and "\<And>l. syllables args = Some l \<Longrightarrow> positive_pattern l"
    and "\<And>name. preset args = Some name \<Longrightarrow> name = ''h'' \<or> name = ''s''"
    and "\<And>s k. shortcut args = Some (s, k) \<Longrightarrow> 0 < s"
  shows "\<exists>pattern. syllables_pattern = Some pattern \<and> positive_pattern pattern
           \<and> number_to_generate = show_arg args"
proof (cases "truthy (syllables args)")
  case True
  then obtain l where l: "syllables args = Some l"
    by (auto simp: truthy_def split: option.splits)
  then have "positive_pattern l" by (rule assms(2))
  moreover have "syllables_pattern = Some l" "number_to_generate = show_arg args"
    using True assms(1) l by (simp_all add: poem_arguments_def)
  ultimately show ?thesis by blast
next
  case nosyl: False
  show ?thesis
  proof (cases "truthy (preset args)")
    case True
    then obtain name where n: "preset args = Some name"
      by (auto simp: truthy_def split: option.splits)
    with assms(3) have "name = ''h'' \<or> name = ''s''" by blast
    with nosyl True n assms(1) show ?thesis
      by (auto simp: poem_arguments_def get_syllable_pattern_def positive_pattern_def
            get_repeat_syllable_pattern_eq)
  next
    case False
    with nosyl assms(1) obtain s k where sk: "shortcut args = Some (s, k)"
      by (auto simp: poem_arguments_def split: option.splits)
    with assms(4) have "0 < s" by blast
    with nosyl False sk assms(1) show ?thesis
      by (auto simp: poem_arguments_def positive_pattern_def get_repeat_syllable_pattern_eq)
  qed
qed

theorem poem_arguments_positive_witness:
  "poem_arguments \<lparr>syllables = Some [5, 7, 5], preset = None, shortcut = None, show_arg = 2\<rparr>
      = Inr (Some [5, 7, 5], 2)
   \<and> positive_pattern [5, 7, 5]
   \<and> poem_arguments \<lparr>syllables = None, preset = Some ''h'', shortcut = None, show_arg = 2\<rparr>
      = Inr (Some [7, 5, 7], 2)
   \<and> positive_pattern [7, 5, 7]
   \<and> poem_arguments \<lparr>syllables = None, preset = None, shortcut = Some (3, 2), show_arg = 2\<rparr>
      = Inr (Some [3, 3], 2)
   \<and> positive_pattern [3, 3]"
proof -
  let ?a = "\<lparr>syllables = Some [5, 7, 5], preset = None, shortcut = None, show_arg = 2\<rparr>"
  let ?b = "\<lparr>syllables = None, preset = Some ''h'', shortcut = None, show_arg = 2\<rparr>"
  let ?c = "\<lparr>syllables = None, preset = None, shortcut = Some (3, 2), show_arg = 2\<rparr>"
  have a: "poem_arguments ?a = Inr (Some [5, 7, 5], 2)"
    by (simp add: poem_arguments_def truthy_def)
  have b: "poem_arguments ?b = Inr (Some [7, 5, 7], 2)"
    by (simp add: poem_arguments_def truthy_def get_syllable_pattern_def)
  have c: "poem_arguments ?c = Inr (Some [3, 3], 2)"
    by (simp add: poem_arguments_def truthy_def get_repeat_syllable_pattern_eq eval_nat_numeral)
  have "\<exists>pattern. Some [5, 7, 5] = Some pattern \<and> positive_pattern pattern
           \<and> (2 :: int) = show_arg ?a"
    by (rule poem_arguments_positive [OF a]) (simp_all add: positive_pattern_def)
  then have "positive_pattern [5, 7, 5]" by simp
  moreover have "\<exists>pattern. Some [7, 5, 7] = Some pattern \<and> positive_pattern pattern
           \<and> (2 :: int) = show_arg ?b"
    by (rule poem_arguments_positive [OF b]) simp_all
  then have "positive_pattern [7, 5, 7]" by simp
  moreover have "\<exists>pattern. Some [3, 3] = Some pattern \<and> positive_pattern pattern
           \<and> (2 :: int) = show_arg ?c"
    by (rule poem_arguments_positive [OF c]) simp_all
  then have "positive_pattern [3, 3]" by simp
  ultimately show ?thesis using a b c by simp
qed

text \<open>
  Claim C7 as stated fails: the explicit list \<^verbatim>\<open>-l 0\<close> reaches the generator as the
  pattern \<open>[0]\<close>, whose entry is not positive.
\<close>
theorem poem_arguments_zero_counterexample:
  "poem_arguments \<lparr>syllables = Some [0], preset = None, shortcut = None, show_arg = 1\<rparr>
      = Inr (Some [0], 1)
   \<and> \<not> positive_pattern [0]"
  by (simp add: poem_arguments_def truthy_def positive_pattern_def)

section \<open>Match patterns\<close>

text \<open>
  Claim C9. The patterns handed to \<^verbatim>\<open>rank_by_number_of_matches\<close> are the pieces of
  the argument split at \<^verbatim>\<open>~\<close> when it contains one, and the argument alone in a
  one-element list otherwise; whatever the ranking method is, it receives exactly
  this list. Splitting is pinned down by its pieces: joined with \<^verbatim>\<open>~\<close> they give
  the argument back, none contains \<^verbatim>\<open>~\<close>, and there is one more piece than
  separators.
\<close>
theorem match_patterns_split:
  "(CHR ''~'' \<in> set elements_to_match \<longrightarrow>
      match_patterns elements_to_match = split_sep (CHR ''~'') elements_to_match)
   \<and> (CHR ''~'' \<notin> set elements_to_match \<longrightarrow>
      match_patterns elements_to_match = [elements_to_match])
   \<and> join_sep (CHR ''~'') (match_patterns elements_to_match) = elements_to_match
   \<and> (\<forall>p \<in> set (match_patterns elements_to_match). CHR ''~'' \<notin> set p)
   \<and> length (match_patterns elements_to_match) = Suc (count_list elements_to_match (CHR ''~''))
   \<and> get_match_output rank_by_number_of_matches element_type elements_to_match number_to_display =
       generate_ranked_list_output
         (rank_by_number_of_matches (match_patterns elements_to_match) element_type)
         number_to_display"
proof -
  have eq: "match_patterns elements_to_match = split_sep (CHR ''~'') elements_to_match"
    by (simp add: match_patterns_def match_seperator_def split_sep_absent)
  show ?thesis
    unfolding eq
    by (auto simp: join_split_sep length_split_sep split_sep_absent get_match_output_def eq
             dest: split_sep_no_sep)
qed

theorem match_patterns_split_witness:
  "CHR ''~'' \<in> set ''the~cat~''
   \<and> match_patterns ''the~cat~'' = [''the'', ''cat'', '''']
   \<and> CHR ''~'' \<notin> set ''the''
   \<and> match_patterns ''the'' = [''the'']"
  using match_patterns_split [of "''the~cat~''"] match_patterns_split [of "''the''"]
  by simp

section \<open>File names\<close>

text \<open>
  Claim C10. For an input filename with exactly one \<^verbatim>\<open>.\<close>, the output filename
  is the part before the dot, then \<^verbatim>\<open>_out\<close>, then \<^verbatim>\<open>.\<close> and the
  extension, and the input filename is returned unchanged; for any other number of
  dots the destructuring of the split raises \<^verbatim>\<open>ValueError\<close>.
\<close>
theorem get_filenames_one_dot:
  "(count_list filename_in (CHR ''.'') = 1 \<longrightarrow>
      (\<exists>name extension.
          filename_in = name @ ''.'' @ extension \<and>
          CHR ''.'' \<notin> set name \<and> CHR ''.'' \<notin> set extension \<and>
          get_filenames filename_in =
            Inr (filename_in, name @ ''_out'' @ ''.'' @ extension)))
   \<and> (count_list filename_in (CHR ''.'') \<noteq> 1 \<longrightarrow>
        get_filenames filename_in = Inl ValueError)"
proof (intro conjI impI)
  assume one: "count_list filename_in (CHR ''.'') = 1"
  then have "length (split_sep (CHR ''.'') filename_in) = 2"
    by (simp add: length_split_sep)
  then obtain name extension where sp: "split_sep (CHR ''.'') filename_in = [name, extension]"
    by (cases "split_sep (CHR ''.'') filename_in" rule: list.exhaust)
       (auto simp: length_Suc_conv)
  have "join_sep (CHR ''.'') [name, extension] = filename_in"
    using join_split_sep [of "CHR ''.''" filename_in] sp by simp
  then have eq: "filename_in = name @ ''.'' @ extension" by simp
  have "CHR ''.'' \<notin> set name" "CHR ''.'' \<notin> set extension"
    using split_sep_no_sep [of _ "CHR ''.''" filename_in] sp by auto
  moreover have "get_filenames filename_in =
      Inr (filename_in, name @ ''_out'' @ ''.'' @ extension)"
    using sp by (simp add: get_filenames_def)
  ultimately show "\<exists>name extension.
          filename_in = name @ ''.'' @ extension \<and>
          CHR ''.'' \<notin> set name \<and> CHR ''.'' \<notin> set extension \<and>
          get_filenames filename_in =
            Inr (filename_in, name @ ''_out'' @ ''.'' @ extension)"
    using eq by blast
next
  assume "count_list filename_in (CHR ''.'') \<noteq> 1"
  then have "length (split_sep (CHR ''.'') filename_in) \<noteq> 2"
    by (simp add: length_split_sep)
  then show "get_filenames filename_in = Inl ValueError"
    by (auto simp: get_filenames_def split: list.splits)
qed

theorem get_filenames_one_dot_witness:
  "count_list ''poem.txt'' (CHR ''.'') = 1
   \<and> get_filenames ''poem.txt'' = Inr (''poem.txt'', ''poem_out.txt'')
   \<and> count_list ''a.tar.gz'' (CHR ''.'') \<noteq> 1
   \<and> get_filenames ''a.tar.gz'' = Inl ValueError
   \<and> count_list ''README'' (CHR ''.'') \<noteq> 1
   \<and> get_filenames ''README'' = Inl ValueError"
  using get_filenames_one_dot [of "''poem.txt''"]
    get_filenames_one_dot [of "''a.tar.gz''"]
    get_filenames_one_dot [of "''README''"]
  by (simp add: get_filenames_def)

section \<open>Ranking by total count\<close>

lemma first_index_Cons:
  "first_index (x # xs) y = (if y = x then 0 else Suc (first_index xs y))"
  by (auto simp: first_index_def)

lemma first_appearances_order:
  "sorted_wrt (\<lambda>a b. first_index xs a < first_index xs b) (first_appearances xs)"
proof (induction xs)
  case Nil
  show ?case by simp
next
  case (Cons x xs)
  let ?rest = "filter (\<lambda>y. y \<noteq> x) (first_appearances xs)"
  have "sorted_wrt (\<lambda>a b. first_index xs a < first_index xs b) ?rest"
    using Cons.IH by (rule sorted_wrt_filter)
  then have "sorted_wrt (\<lambda>a b. first_index (x # xs) a < first_index (x # xs) b) ?rest"
    by (rule sorted_wrt_mono_rel [rotated]) (simp add: first_index_Cons)
  moreover have "\<forall>b \<in> set ?rest. first_index (x # xs) x < first_index (x # xs) b"
    by (simp add: first_index_Cons)
  ultimately show ?case by simp
qed

lemma set_first_appearances: "set (first_appearances xs) = set xs"
  by (induction xs) auto

lemma distinct_first_appearances: "distinct (first_appearances xs)"
  by (induction xs) (auto simp: set_first_appearances)

lemma ties_from_classes:
  "(\<And>k. sorted_wrt R (filter (\<lambda>x. f x = k) xs)) \<Longrightarrow>
   sorted_wrt (\<lambda>a b. f a = f b \<longrightarrow> R a b) xs"
proof (induction xs)
  case Nil
  show ?case by simp
next
  case (Cons x xs)
  have tail: "sorted_wrt R (filter (\<lambda>y. f y = k) xs)" for k
    using Cons.prems [of k] by (cases "f x = k") simp_all
  have "sorted_wrt R (x # filter (\<lambda>y. f y = f x) xs)"
    using Cons.prems [of "f x"] by simp
  then have "\<forall>y \<in> set xs. f x = f y \<longrightarrow> R x y" by auto
  with Cons.IH [OF tail] show ?case by simp
qed

lemma sort_key_ties:
  assumes "sorted_wrt R xs"
  shows "sorted_wrt (\<lambda>a b. f a = f b \<longrightarrow> R a b) (sort_key f xs)"
proof (rule ties_from_classes)
  fix k
  have "filter (\<lambda>x. f x = k) (sort_key f xs) = filter (\<lambda>x. f x = k) xs"
    by (rule sort_key_stable)
  moreover have "sorted_wrt R (filter (\<lambda>x. f x = k) xs)"
    using assms by (rule sorted_wrt_filter)
  ultimately show "sorted_wrt R (filter (\<lambda>x. f x = k) (sort_key f xs))" by simp
qed

lemma rank_descending:
  "sorted_wrt (\<lambda>a b. snd b \<le> snd a) (rank_by_total_count t element_type)"
proof -
  let ?key = "\<lambda>(element, count). - (count :: int)"
  have "sorted (map ?key (sort_key ?key xs))" for xs :: ranked
    by (rule sorted_sort_key)
  then have "sorted_wrt (\<lambda>a b. ?key a \<le> ?key b) (sort_key ?key xs)" for xs :: ranked
    by (simp add: sorted_wrt_map)
  then have "sorted_wrt (\<lambda>a b. snd b \<le> snd a) (sort_key ?key xs)" for xs :: ranked
    by (rule sorted_wrt_mono_rel [rotated]) (auto simp: case_prod_beta)
  then show ?thesis by (simp add: rank_by_total_count_def Let_def)
qed

lemma rank_ties:
  "sorted_wrt
     (\<lambda>a b. snd a = snd b \<longrightarrow>
        first_index (elements t element_type) (fst a) < first_index (elements t element_type) (fst b))
     (rank_by_total_count t element_type)"
proof -
  let ?tokens = "elements t element_type"
  let ?key = "\<lambda>(element, count). - (count :: int)"
  let ?R = "\<lambda>a b :: string \<times> int. first_index ?tokens (fst a) < first_index ?tokens (fst b)"
  let ?counted = "map (\<lambda>element. (element, int (count_list ?tokens element)))
                    (first_appearances ?tokens)"
  have "sorted_wrt ?R ?counted"
    using first_appearances_order [of ?tokens] by (simp add: sorted_wrt_map)
  then have "sorted_wrt (\<lambda>a b. ?key a = ?key b \<longrightarrow> ?R a b) (sort_key ?key ?counted)"
    by (rule sort_key_ties)
  then have "sorted_wrt (\<lambda>a b. snd a = snd b \<longrightarrow> ?R a b) (sort_key ?key ?counted)"
    by (rule sorted_wrt_mono_rel [rotated]) (auto simp: case_prod_beta)
  then show ?thesis by (simp add: rank_by_total_count_def Let_def)
qed

lemma rank_entries:
  "set (rank_by_total_count t element_type) =
     (\<lambda>element. (element, int (count_list (elements t element_type) element)))
       ` set (elements t element_type)"
  by (simp add: rank_by_total_count_def Let_def set_first_appearances)

lemma distinct_map_insort_key:
  "distinct (map g (insort_key f x xs)) = (g x \<notin> g ` set xs \<and> distinct (map g xs))"
  by (induction xs) (auto simp: set_insort_key)

lemma distinct_map_sort_key: "distinct (map g (sort_key f xs)) = distinct (map g xs)"
  by (induction xs) (auto simp: distinct_map_insort_key)

lemma rank_distinct: "distinct (map fst (rank_by_total_count t element_type))"
  by (simp add: rank_by_total_count_def Let_def distinct_map_sort_key comp_def
        distinct_first_appearances)

text \<open>
  Claim C1. For every text and every element type, the ranking by total count is
  sorted by count descending, and entries with equal counts stand in the order in
  which their elements first appear in the tokenization. The ranking lists every
  distinct element once, with the number of its occurrences.
\<close>
theorem rank_by_total_count_order:
  "(\<forall>i j. i < j \<and> j < length (rank_by_total_count t element_type) \<longrightarrow>
      snd (rank_by_total_count t element_type ! j) \<le> snd (rank_by_total_count t element_type ! i)
      \<and> (snd (rank_by_total_count t element_type ! i) = snd (rank_by_total_count t element_type ! j) \<longrightarrow>
           first_index (elements t element_type) (fst (rank_by_total_count t element_type ! i))
             < first_index (elements t element_type) (fst (rank_by_total_count t element_type ! j))))
   \<and> distinct (map fst (rank_by_total_count t element_type))
   \<and> set (rank_by_total_count t element_type) =
       (\<lambda>element. (element, count_occurences t element element_type))
         ` set (elements t element_type)"
  using rank_descending [of t element_type] rank_ties [of t element_type]
  by (auto simp: sorted_wrt_iff_nth_less rank_distinct rank_entries count_occurences_def)

theorem rank_by_total_count_order_witness:
  "rank_by_total_count example_text ''words'' =
     [(''the'', 2), (''cat'', 2), (''sat'', 1), (''ran'', 1), (''fast'', 1)]
   \<and> first_index (elements example_text ''words'') ''the''
       < first_index (elements example_text ''words'') ''cat''
   \<and> get_totalcount_output example_text ''words'' 3 =
       Inr [ranked_line (''the'', 2), ranked_line (''cat'', 2), ranked_line (''sat'', 1)]"
proof -
  have r: "rank_by_total_count example_text ''words'' =
     [(''the'', 2), (''cat'', 2), (''sat'', 1), (''ran'', 1), (''fast'', 1)]"
    by (simp add: rank_by_total_count_def elements_def example_text_def)
  have "(0::nat) < 1 \<and> 1 < length (rank_by_total_count example_text ''words'')"
    by (simp add: r)
  moreover have "snd (rank_by_total_count example_text ''words'' ! 0)
      = snd (rank_by_total_count example_text ''words'' ! 1)"
    by (simp add: r)
  ultimately have "first_index (elements example_text ''words'') (fst (rank_by_total_count example_text ''words'' ! 0))
             < first_index (elements example_text ''words'') (fst (rank_by_total_count example_text ''words'' ! 1))"
    using rank_by_total_count_order [of example_text "''words''"] by blast
  then have "first_index (elements example_text ''words'') ''the''
       < first_index (elements example_text ''words'') ''cat''"
    by (simp add: r)
  moreover have "get_totalcount_output example_text ''words'' 3 =
       Inr [ranked_line (''the'', 2), ranked_line (''cat'', 2), ranked_line (''sat'', 1)]"
    by (simp add: get_totalcount_output_def r generate_ranked_list_output_eq eval_nat_numeral)
  ultimately show ?thesis using r by simp
qed

section \<open>The readability score\<close>

text \<open>
  Claim C5. The Gunning-Fog score of a text with no sentence, or with no word, is the
  failure \<^verbatim>\<open>DivisionGuardError\<close>, which \<^verbatim>\<open>get_Gunning_output\<close> hands on; no text
  makes a division by zero, and a text with a sentence and a word has a score.
\<close>
theorem gunning_fog_guarded:
  "calculate_Gunning_Fog_Index estimate_syllables t \<noteq> Inl ZeroDivisionError
   \<and> get_Gunning_output estimate_syllables t \<noteq> Inl ZeroDivisionError
   \<and> (sentences t = [] \<or> words t = [] \<longrightarrow>
        calculate_Gunning_Fog_Index estimate_syllables t = Inl DivisionGuardError
        \<and> get_Gunning_output estimate_syllables t = Inl DivisionGuardError)
   \<and> (sentences t \<noteq> [] \<and> words t \<noteq> [] \<longrightarrow>
        (\<exists>index. calculate_Gunning_Fog_Index estimate_syllables t = Inr index
           \<and> get_Gunning_output estimate_syllables t = Inr [PyFloat index]))"
proof (cases "sentences t = [] \<or> words t = []")
  case True
  then have "calculate_Gunning_Fog_Index estimate_syllables t = Inl DivisionGuardError"
    by (auto simp: calculate_Gunning_Fog_Index_def)
  with True show ?thesis by (simp add: get_Gunning_output_def)
next
  case False
  define score :: real where
    "score = 0.4 * (real (length (words t)) / real (length (sentences t))
            + 100 * (real (length (filter (\<lambda>w. 3 \<le> estimate_syllables w) (words t)))
                      / real (length (words t))))"
  from False have "calculate_Gunning_Fog_Index estimate_syllables t = Inr score"
    unfolding score_def by (simp add: calculate_Gunning_Fog_Index_def py_truediv_def Let_def)
  with False show ?thesis by (simp add: get_Gunning_output_def)
qed

theorem gunning_fog_guarded_witness:
  "sentences \<lparr>content = ''the cat'', words = [''the'', ''cat''], characters = [], sentences = []\<rparr> = []
   \<and> get_Gunning_output (\<lambda>w. 1)
        \<lparr>content = ''the cat'', words = [''the'', ''cat''], characters = [], sentences = []\<rparr>
       = Inl DivisionGuardError
   \<and> sentences example_text \<noteq> [] \<and> words example_text \<noteq> []
   \<and> get_Gunning_output (\<lambda>w. 1) example_text = Inr [PyFloat (7 / 5)]"
proof -
  let ?t = "\<lparr>content = ''the cat'', words = [''the'', ''cat''], characters = [], sentences = []\<rparr>"
  have s: "sentences ?t = []" by simp
  then have "get_Gunning_output (\<lambda>w. 1) ?t = Inl DivisionGuardError"
    using gunning_fog_guarded [of "\<lambda>w. 1" ?t] by blast
  moreover have ne: "sentences example_text \<noteq> [] \<and> words example_text \<noteq> []"
    by (simp add: example_text_def)
  moreover have "calculate_Gunning_Fog_Index (\<lambda>w. 1) example_text = Inr (7 / 5)"
    by (simp add: calculate_Gunning_Fog_Index_def example_text_def py_truediv_def)
  then have "get_Gunning_output (\<lambda>w. 1) example_text = Inr [PyFloat (7 / 5)]"
    using gunning_fog_guarded [of "\<lambda>w. 1" example_text] ne by auto
  ultimately show ?thesis using s by simp
qed

section \<open>Output lines that are not strings\<close>

text \<open>
  Claim C4 fails on the code: for the sample text the \<^verbatim>\<open>count\<close> command's output is
  a list holding the integer 2 and the readability command's output a list holding a
  number; neither element is a string.
\<close>
theorem get_count_output_not_strings:
  "get_count_output example_text ''words'' ''the'' = [PyInt 2]
   \<and> \<not> list_all is_str (get_count_output example_text ''words'' ''the'')
   \<and> get_Gunning_output (\<lambda>w. 1) example_text = Inr [PyFloat (7 / 5)]
   \<and> \<not> list_all is_str [PyFloat (7 / 5)]"
  by (simp add: get_count_output_def count_occurences_def elements_def example_text_def
        get_Gunning_output_def calculate_Gunning_Fog_Index_def py_truediv_def)

section \<open>Poems\<close>














end
